theory Spec2Isabelle
  imports Complex_Main
begin

unbundle bit_operations_syntax

section \<open>Lookup-table generators: the model\<close>

text \<open>
  The two scripts \<^verbatim>\<open>scripts/lut_gen.py\<close> (sigmoid and derivative, 1024 packed
  32-bit words) and \<^verbatim>\<open>scripts/acos_lut_gen.py\<close> (arccosine, 256 words of 16 bits)
  are embedded as HOL functions. Python floats are idealised as real numbers: every
  arithmetic operation is exact, \<^verbatim>\<open>math.exp\<close> is \<^term>\<open>exp\<close> and \<^verbatim>\<open>math.acos\<close> is
  \<^term>\<open>arccos\<close>. Python integers are unbounded and are modelled by \<^typ>\<open>int\<close>.
  The exceptions the library functions can raise are values of \<open>py_error\<close>. The
  messages printed to the terminal are left out.

  The concrete inputs at which the code is evaluated below are ones where the
  idealisation is harmless: the sampled inputs \<open>0\<close>, \<open>1\<close>, \<open>-1\<close>, \<open>-10\<close> and \<open>10\<close> are
  floats, and each product that is truncated or rounded there is further from the
  next integer than any rounding error of double precision.
\<close>

subsection \<open>Python built-ins used by the scripts\<close>

datatype py_error = OverflowError | ValueError

text \<open>The largest finite double; \<^verbatim>\<open>math.exp\<close> raises OverflowError beyond it.\<close>

definition DBL_MAX :: real where
  "DBL_MAX = (2 - 1 / 2 ^ 52) * 2 ^ 1023"

definition math_exp :: "real \<Rightarrow> py_error + real" where
  "math_exp y = (if DBL_MAX < exp y then Inl OverflowError else Inr (exp y))"

text \<open>\<^verbatim>\<open>math.acos\<close> raises ValueError ("math domain error") outside \<open>[-1, 1]\<close>.\<close>

definition math_acos :: "real \<Rightarrow> py_error + real" where
  "math_acos v = (if v < - 1 \<or> 1 < v then Inl ValueError else Inr (arccos v))"

text \<open>\<^verbatim>\<open>int(v)\<close> on a float truncates towards zero.\<close>

definition py_int :: "real \<Rightarrow> int" where
  "py_int v = (if v < 0 then \<lceil>v\<rceil> else \<lfloor>v\<rfloor>)"

text \<open>\<^verbatim>\<open>round(v)\<close> on a float rounds to the nearest integer, ties to the even one.\<close>

definition py_round :: "real \<Rightarrow> int" where
  "py_round v =
     (let f = \<lfloor>v\<rfloor>; d = v - of_int f
      in if d < 1 / 2 then f
         else if 1 / 2 < d then f + 1
         else if even f then f else f + 1)"

text \<open>
  The format specifications \<^verbatim>\<open>{val:08X}\<close> and \<^verbatim>\<open>{theta_q13:04x}\<close>: hexadecimal digits
  (upper or lower case), padded with zeros after the sign up to the minimal width. A
  number with more digits than the width is printed in full.
\<close>

definition hex_digit :: "bool \<Rightarrow> nat \<Rightarrow> char" where
  "hex_digit upper d =
     (if upper then ''0123456789ABCDEF'' else ''0123456789abcdef'') ! (d mod 16)"

fun hex_nat :: "bool \<Rightarrow> nat \<Rightarrow> string" where
  "hex_nat upper n =
     (if n < 16 then [hex_digit upper n]
      else hex_nat upper (n div 16) @ [hex_digit upper (n mod 16)])"

declare hex_nat.simps [simp del]

definition zfill :: "nat \<Rightarrow> string \<Rightarrow> string" where
  "zfill w s = replicate (w - length s) (CHR ''0'') @ s"

definition format_hex :: "bool \<Rightarrow> nat \<Rightarrow> int \<Rightarrow> string" where
  "format_hex upper width v =
     (if v < 0 then CHR ''-'' # zfill (width - 1) (hex_nat upper (nat (- v)))
      else zfill width (hex_nat upper (nat v)))"

definition newline :: string where
  "newline = [CHR 0x0A]"

subsection \<open>Files and the write loop\<close>

text \<open>
  A file system maps a file name to the file's content. Opening a file in mode
  \<^verbatim>\<open>"w"\<close> starts from the empty content whatever the file held before, and every
  \<^verbatim>\<open>f.write\<close> appends to it. Failures of the operating system (a file that cannot be
  opened or written) are outside the model.

  The body of each \<^verbatim>\<open>for i in range(n)\<close> loop computes the text it writes, or raises.
  The loop stops at the first exception and keeps what was written before it.
\<close>

type_synonym filesystem = "string \<Rightarrow> string option"

fun write_loop ::
  "(nat \<Rightarrow> py_error + string) \<Rightarrow> nat list \<Rightarrow> string \<Rightarrow> string \<times> py_error option" where
  "write_loop body [] f = (f, None)"
| "write_loop body (i # rest) f =
     (case body i of
        Inl e \<Rightarrow> (f, Some e)
      | Inr line \<Rightarrow> write_loop body rest (f @ line))"

subsection \<open>\<^verbatim>\<open>lut_gen.py\<close>: the sigmoid and derivative table\<close>

definition sigmoid :: "real \<Rightarrow> py_error + real" where
  "sigmoid x =
     (if x < - 10 then Inr 0
      else if 10 < x then Inr 1
      else (case math_exp (- x) of
              Inl e \<Rightarrow> Inl e
            | Inr ex \<Rightarrow> Inr (1 / (1 + ex))))"

definition sigmoid_derivative :: "real \<Rightarrow> py_error + real" where
  "sigmoid_derivative x =
     (case sigmoid x of
        Inl e \<Rightarrow> Inl e
      | Inr s \<Rightarrow> Inr (s * (1 - s)))"

definition num_entries :: nat where
  "num_entries = 1024"

definition min_val :: real where
  "min_val = - 8"

definition max_val :: real where
  "max_val = 8"

definition step :: real where
  "step = (max_val - min_val) / real num_entries"

definition output_file :: string where
  "output_file = ''sigmoid_lut.mem''"

text \<open>Line 46: the input sampled at index \<open>i\<close>.\<close>

definition lut_x :: "nat \<Rightarrow> real" where
  "lut_x i = min_val + real i * step"

text \<open>Lines 51 and 52: both channels are converted by the same expression.\<close>

definition sig_fixed :: "real \<Rightarrow> int" where
  "sig_fixed sig = py_int (sig * 32767)"

definition sig_d_fixed :: "real \<Rightarrow> int" where
  "sig_d_fixed sig_d = py_int (sig_d * 32767)"

text \<open>Line 55: the derivative is shifted without a mask, the sigmoid is masked.\<close>

definition pack_val :: "int \<Rightarrow> int \<Rightarrow> int" where
  "pack_val sd s = (push_bit 16 sd) OR (s AND 0xFFFF)"

text \<open>Lines 46 to 58: one pass of the loop body, returning the text written.\<close>

definition lut_body :: "nat \<Rightarrow> py_error + string" where
  "lut_body i =
     (let x = lut_x i in
      case sigmoid x of
        Inl e \<Rightarrow> Inl e
      | Inr sig \<Rightarrow>
        (case sigmoid_derivative x of
           Inl e \<Rightarrow> Inl e
         | Inr sig_d \<Rightarrow>
             let val = pack_val (sig_d_fixed sig_d) (sig_fixed sig)
             in Inr (format_hex True 8 val @ newline)))"

definition lut_header :: "string list" where
  "lut_header =
     [''// Boreal Neuro-Core v4.0 Sigmoid/Derivative LUT'',
      ''// Format: 32-bit hex (Bits [31:16] = Derivative, [15:0] = Sigmoid)'',
      ''// Value mapped using Q0.15 Fixed-Point notation.'']"

text \<open>
  \<^verbatim>\<open>main\<close>: the file is opened for writing, the three comment lines are written, then
  the loop runs. An exception is not caught: it ends the run, and the \<^verbatim>\<open>with\<close> block
  closes the file with what was written so far.
\<close>

definition main :: "filesystem \<Rightarrow> filesystem \<times> py_error option" where
  "main fs =
     (let f0 = [];
          f1 = f0 @ lut_header ! 0 @ newline;
          f2 = f1 @ lut_header ! 1 @ newline;
          f3 = f2 @ lut_header ! 2 @ newline;
          (f, err) = write_loop lut_body [0..<num_entries] f3
      in (fs(output_file := Some f), err))"

subsection \<open>\<^verbatim>\<open>acos_lut_gen.py\<close>: the arccosine table\<close>

definition acos_file :: string where
  "acos_file = ''acos_lut.mem''"

text \<open>Lines 11 and 13: the sampled cosine, clamped.\<close>

definition acos_val :: "nat \<Rightarrow> real" where
  "acos_val i = (let val = real i / 127.5 - 1 in max (- 1) (min 1 val))"

text \<open>Line 19: the conversion to Q2.13.\<close>

definition theta_q13 :: "real \<Rightarrow> int" where
  "theta_q13 theta_rad = py_round (theta_rad * 2 ^ 13)"

definition acos_body :: "nat \<Rightarrow> py_error + string" where
  "acos_body i =
     (case math_acos (acos_val i) of
        Inl e \<Rightarrow> Inl e
      | Inr theta_rad \<Rightarrow> Inr (format_hex False 4 (theta_q13 theta_rad) @ newline))"

text \<open>
  The script as a whole: any exception is caught, reported and turned into the exit
  status 1; otherwise the status is 0.
\<close>

definition acos_lut_gen :: "filesystem \<Rightarrow> filesystem \<times> nat" where
  "acos_lut_gen fs =
     (let (f, err) = write_loop acos_body [0..<256] []
      in (fs(acos_file := Some f), (case err of None \<Rightarrow> 0 | Some e \<Rightarrow> 1)))"

subsection \<open>Reading a memory image back\<close>

text \<open>
  The lines of a newline-terminated text, and its data records: the lines that do not
  begin with the comment marker \<^verbatim>\<open>//\<close>.
\<close>

definition lines_of :: "string \<Rightarrow> string list" where
  "lines_of s =
     foldr (\<lambda>c acc. if c = CHR 0x0A then [] # acc
                     else (case acc of [] \<Rightarrow> [[c]] | l # ls \<Rightarrow> (c # l) # ls)) s []"

definition is_comment :: "string \<Rightarrow> bool" where
  "is_comment l = (take 2 l = ''//'')"

definition data_records :: "string \<Rightarrow> string list" where
  "data_records s = filter (\<lambda>l. \<not> is_comment l) (lines_of s)"

definition comment_lines :: "string \<Rightarrow> string list" where
  "comment_lines s = filter is_comment (lines_of s)"

subsection \<open>The quantizer and the packer as the specification words them\<close>

text \<open>
  For comparison with the code: rounding to the nearest integer (ties away from zero),
  clamping to the range of a \<open>bits\<close>-wide signed or unsigned integer, and packing two
  channels each masked to 16 bits.
\<close>

definition spec_round :: "real \<Rightarrow> int" where
  "spec_round v = (if v < 0 then - \<lfloor>- v + 1 / 2\<rfloor> else \<lfloor>v + 1 / 2\<rfloor>)"

definition spec_clamp :: "nat \<Rightarrow> bool \<Rightarrow> int \<Rightarrow> int" where
  "spec_clamp bits signed q =
     (if signed then max (- (2 ^ (bits - 1))) (min (2 ^ (bits - 1) - 1) q)
      else max 0 (min (2 ^ bits - 1) q))"

definition spec_quantize :: "nat \<Rightarrow> nat \<Rightarrow> bool \<Rightarrow> real \<Rightarrow> int" where
  "spec_quantize bits frac_bits signed v = spec_clamp bits signed (spec_round (v * 2 ^ frac_bits))"

definition spec_pack :: "int \<Rightarrow> int \<Rightarrow> int" where
  "spec_pack c1 c0 = push_bit 16 (c1 AND 0xFFFF) OR push_bit 0 (c0 AND 0xFFFF)"

section \<open>Properties\<close>

subsection \<open>Numerical bounds on \<open>e\<close> and \<open>\<pi>\<close>\<close>

text \<open>
  The constants are enclosed by rationals: Euler's number by the Maclaurin expansion of
  the exponential with nine terms, \<open>\<pi>\<close> by Machin's formula and the alternating series
  of the arctangent.
\<close>

lemma exp_one_bounds: "(271827 / 100000 :: real) < exp 1 \<and> exp (1::real) < 271829 / 100000"
proof -
  obtain t :: real where t: "\<bar>t\<bar> \<le> \<bar>1\<bar>"
    and e: "exp (1::real) = (\<Sum>m<9. (1 ^ m) / fact m) + (exp t / fact 9) * 1 ^ 9"
    using Maclaurin_exp_le [of 1 9] by blast
  have s: "(\<Sum>m<9. ((1::real) ^ m) / fact m) = 109601 / 40320"
    by (simp add: lessThan_nat_numeral lessThan_Suc fact_numeral)
  have "exp t \<le> exp 1" using t by simp
  moreover have "exp (1::real) \<le> 3" by (rule exp_le)
  ultimately have up: "exp t \<le> 3" by linarith
  have lo: "0 < exp t" by simp
  have f9: "fact 9 = (362880::real)" by (simp add: fact_numeral)
  have eq: "exp (1::real) = 109601 / 40320 + exp t / 362880"
    using e s f9 by simp
  show ?thesis using eq up lo by linarith
qed

lemma exp_ten_bounds: "(22025 :: real) < exp 10 \<and> exp (10::real) < 22028"
proof -
  have p: "exp (10::real) = exp 1 ^ 10"
    using exp_of_nat_mult [of 10 "1::real"] by simp
  have lo: "(271827 / 100000 :: real) ^ 10 < exp 1 ^ 10"
    using exp_one_bounds by (intro power_strict_mono) simp_all
  have hi: "exp (1::real) ^ 10 < (271829 / 100000) ^ 10"
    using exp_one_bounds by (intro power_strict_mono) simp_all
  have "(22025::real) < (271827 / 100000) ^ 10" by (simp add: power_divide)
  moreover have "(271829 / 100000 :: real) ^ 10 < 22028" by (simp add: power_divide)
  ultimately show ?thesis using p lo hi by linarith
qed

lemma arctan_series_bounds:
  fixes x :: real
  assumes "0 < x" "x \<le> 1"
  shows "(\<Sum>k<2 * n. (- 1) ^ k * (1 / real (k * 2 + 1) * x ^ (k * 2 + 1))) \<le> arctan x"
    and "arctan x \<le> (\<Sum>k<2 * n + 1. (- 1) ^ k * (1 / real (k * 2 + 1) * x ^ (k * 2 + 1)))"
proof -
  have ax: "\<bar>x\<bar> \<le> 1" using assms by simp
  let ?a = "\<lambda>n. 1 / real (n * 2 + 1) * x ^ (n * 2 + 1)"
  have pos: "0 < ?a 0" using assms by simp
  have mem: "(\<Sum>i. (- 1) ^ i * ?a i) \<in> {(\<Sum>i<2 * n. (- 1) ^ i * ?a i) .. (\<Sum>i<2 * n + 1. (- 1) ^ i * ?a i)}"
    using summable_Leibniz(2) [OF zeroseq_arctan_series [OF ax] monoseq_arctan_series [OF ax]] pos
    by blast
  have eq: "arctan x = (\<Sum>i. (- 1) ^ i * ?a i)"
    by (rule arctan_series [OF ax])
  show "(\<Sum>k<2 * n. (- 1) ^ k * (1 / real (k * 2 + 1) * x ^ (k * 2 + 1))) \<le> arctan x"
    using mem eq by simp
  show "arctan x \<le> (\<Sum>k<2 * n + 1. (- 1) ^ k * (1 / real (k * 2 + 1) * x ^ (k * 2 + 1)))"
    using mem eq by simp
qed

lemma pi_bounds: "(314159 / 100000 :: real) < pi \<and> pi < 31416 / 10000"
proof -
  have m: "pi = 16 * arctan (1 / 5) - 4 * arctan (1 / 239)"
    using machin by simp
  have l5: "(\<Sum>k<4. (- 1) ^ k * (1 / real (k * 2 + 1) * (1 / 5) ^ (k * 2 + 1))) \<le> arctan (1 / 5)"
    using arctan_series_bounds(1) [of "1 / 5" 2] by simp
  have u5: "arctan (1 / 5) \<le> (\<Sum>k<5. (- 1) ^ k * (1 / real (k * 2 + 1) * (1 / 5) ^ (k * 2 + 1)))"
    using arctan_series_bounds(2) [of "1 / 5" 2] by simp
  have l239: "(\<Sum>k<2. (- 1) ^ k * (1 / real (k * 2 + 1) * (1 / 239) ^ (k * 2 + 1))) \<le> arctan (1 / 239)"
    using arctan_series_bounds(1) [of "1 / 239" 1] by simp
  have u239: "arctan (1 / 239) \<le> (\<Sum>k<1. (- 1) ^ k * (1 / real (k * 2 + 1) * (1 / 239) ^ (k * 2 + 1)))"
    using arctan_series_bounds(2) [of "1 / 239" 0] by simp
  have l5': "(1973955 / 10000000 :: real) < arctan (1 / 5)"
    using l5 by (simp add: lessThan_nat_numeral lessThan_Suc power_divide)
  have u5': "arctan (1 / 5) < (1973956 / 10000000 :: real)"
    using u5 by (simp add: lessThan_nat_numeral lessThan_Suc power_divide)
  have l239': "(41840 / 10000000 :: real) < arctan (1 / 239)"
    using l239 by (simp add: lessThan_nat_numeral lessThan_Suc power_divide)
  have u239': "arctan (1 / 239) < (41842 / 10000000 :: real)"
    using u239 by (simp add: lessThan_nat_numeral lessThan_Suc power_divide)
  show ?thesis using m l5' u5' l239' u239' by linarith
qed

subsection \<open>The sigmoid evaluator and its quantizer\<close>

lemma math_exp_small: "y \<le> 10 \<Longrightarrow> math_exp y = Inr (exp y)"
proof -
  assume y: "y \<le> 10"
  have "exp y \<le> exp 10" using y by simp
  moreover have "(22028::real) \<le> DBL_MAX" by (simp add: DBL_MAX_def)
  ultimately have "\<not> DBL_MAX < exp y" using exp_ten_bounds by linarith
  then show ?thesis by (simp add: math_exp_def)
qed

lemma sigmoid_value:
  "sigmoid x = Inr (if x < - 10 then 0 else if 10 < x then 1 else 1 / (1 + exp (- x)))"
  by (simp add: sigmoid_def math_exp_small)

lemma logistic_range:
  fixes t :: real
  assumes "0 < t"
  shows "0 < 1 / (1 + t) \<and> 1 / (1 + t) < 1"
  using assms by (simp add: field_simps)

lemma sigmoid_range:
  "\<exists>s. sigmoid x = Inr s \<and> 0 \<le> s \<and> s \<le> 1"
proof -
  have "0 < exp (- x)" by simp
  then have "0 < 1 / (1 + exp (- x)) \<and> 1 / (1 + exp (- x)) < 1"
    by (rule logistic_range)
  then show ?thesis by (simp add: sigmoid_value)
qed

lemma sigmoid_derivative_value:
  "sigmoid x = Inr s \<Longrightarrow> sigmoid_derivative x = Inr (s * (1 - s))"
  by (simp add: sigmoid_derivative_def)

lemma derivative_range:
  fixes s :: real
  assumes "0 \<le> s" "s \<le> 1"
  shows "0 \<le> s * (1 - s) \<and> s * (1 - s) \<le> 1 / 4"
proof -
  have "0 \<le> (s - 1 / 2)\<^sup>2" by simp
  then have "s * (1 - s) \<le> 1 / 4" by (simp add: power2_eq_square algebra_simps)
  moreover have "0 \<le> s * (1 - s)" using assms by simp
  ultimately show ?thesis by simp
qed

lemma py_int_nonneg: "0 \<le> v \<Longrightarrow> py_int v = \<lfloor>v\<rfloor>"
  by (simp add: py_int_def)

lemma sig_fixed_range:
  assumes "0 \<le> s" "s \<le> 1"
  shows "sig_fixed s = \<lfloor>s * 32767\<rfloor> \<and> 0 \<le> sig_fixed s \<and> sig_fixed s \<le> 32767"
proof -
  have a: "0 \<le> s * 32767" using assms by simp
  have b: "s * 32767 \<le> 32767" using assms by simp
  have "\<lfloor>s * 32767\<rfloor> \<le> \<lfloor>32767::real\<rfloor>" using b by (rule floor_mono)
  then have c: "\<lfloor>s * 32767\<rfloor> \<le> 32767" by simp
  have d: "0 \<le> \<lfloor>s * 32767\<rfloor>" using a by simp
  show ?thesis using a c d by (simp add: sig_fixed_def py_int_nonneg)
qed

lemma sig_d_fixed_range:
  assumes "0 \<le> d" "d \<le> 1 / 4"
  shows "sig_d_fixed d = \<lfloor>d * 32767\<rfloor> \<and> 0 \<le> sig_d_fixed d \<and> sig_d_fixed d \<le> 8191"
proof -
  have a: "0 \<le> d * 32767" using assms by simp
  have b: "d * 32767 < 8192" using assms by simp
  have c: "\<lfloor>d * 32767\<rfloor> < 8192" using b by (simp add: floor_less_iff)
  have e: "0 \<le> \<lfloor>d * 32767\<rfloor>" using a by simp
  show ?thesis using a c e by (simp add: sig_d_fixed_def py_int_nonneg)
qed

lemma mask16: "(0xFFFF::int) = mask 16"
  by (simp add: mask_eq_exp_minus_1)

lemma pack_val_arith: "pack_val sd s = sd * 65536 + s mod 65536"
proof -
  have "pack_val sd s = concat_bit 16 s sd"
    by (simp add: pack_val_def concat_bit_def mask16 take_bit_eq_mask or.commute)
  also have "\<dots> = take_bit 16 s + push_bit 16 sd"
    by (rule concat_bit_eq)
  also have "\<dots> = sd * 65536 + s mod 65536"
    by (simp add: take_bit_eq_mod push_bit_eq_mult)
  finally show ?thesis .
qed

lemma spec_pack_arith: "spec_pack c1 c0 = (c1 mod 65536) * 65536 + c0 mod 65536"
proof -
  have "spec_pack c1 c0 = concat_bit 16 c0 (take_bit 16 c1)"
    by (simp add: spec_pack_def concat_bit_def mask16 take_bit_eq_mask or.commute)
  also have "\<dots> = take_bit 16 c0 + push_bit 16 (take_bit 16 c1)"
    by (rule concat_bit_eq)
  also have "\<dots> = (c1 mod 65536) * 65536 + c0 mod 65536"
    by (simp add: take_bit_eq_mod push_bit_eq_mult)
  finally show ?thesis .
qed

subsection \<open>Rounding to the nearest integer\<close>

lemma py_round_near: "\<bar>real_of_int (py_round v) - v\<bar> \<le> 1 / 2"
proof -
  have a: "real_of_int \<lfloor>v\<rfloor> \<le> v" by simp
  have b: "v < real_of_int \<lfloor>v\<rfloor> + 1" by linarith
  show ?thesis using a b by (auto simp: py_round_def Let_def)
qed

lemma py_round_bounds:
  assumes "real_of_int lo \<le> v" "v \<le> real_of_int hi"
  shows "lo \<le> py_round v \<and> py_round v \<le> hi"
proof -
  have f: "lo \<le> \<lfloor>v\<rfloor>" using assms(1) by (simp add: le_floor_iff)
  have g: "\<lfloor>v\<rfloor> \<le> hi" using assms(2) by (simp add: floor_le_iff) 
  have lo: "lo \<le> py_round v" using f by (auto simp: py_round_def Let_def)
  have hi: "py_round v \<le> hi"
  proof (cases "\<lfloor>v\<rfloor> = hi")
    case True
    then have "v - real_of_int \<lfloor>v\<rfloor> \<le> 0" using assms(2) by simp
    then show ?thesis using True by (simp add: py_round_def Let_def)
  next
    case False
    then have "\<lfloor>v\<rfloor> + 1 \<le> hi" using g by linarith
    then show ?thesis by (auto simp: py_round_def Let_def)
  qed
  show ?thesis using lo hi by simp
qed

subsection \<open>Two table entries and the error of truncation\<close>

lemma lut_x_512: "lut_x 512 = 0"
  by (simp add: lut_x_def min_val_def max_val_def step_def num_entries_def)

lemma lut_x_576: "lut_x 576 = 1"
  by (simp add: lut_x_def min_val_def max_val_def step_def num_entries_def)

lemma scaled_error_arith:
  fixes v q :: real
  assumes "q \<le> v * 32767" "v * 32767 < q + 1" "0 \<le> v" "v \<le> 1"
  shows "0 \<le> v - q / 32768 \<and> v - q / 32768 < 2 / 32768"
  using assms by (simp add: field_simps)

lemma floor_scaled_error:
  fixes v :: real
  assumes "0 \<le> v" "v \<le> 1"
  shows "0 \<le> v - real_of_int \<lfloor>v * 32767\<rfloor> / 2 ^ 15
    \<and> v - real_of_int \<lfloor>v * 32767\<rfloor> / 2 ^ 15 < 2 / 2 ^ 15"
proof -
  have a: "real_of_int \<lfloor>v * 32767\<rfloor> \<le> v * 32767" by (rule of_int_floor_le)
  have b: "v * 32767 < real_of_int \<lfloor>v * 32767\<rfloor> + 1" by linarith
  have p: "(2::real) ^ 15 = 32768" by simp
  show ?thesis unfolding p using a b assms by (rule scaled_error_arith)
qed

subsection \<open>Hexadecimal formatting\<close>

lemma hex_digit_char:
  "hex_digit upper d \<in> set (if upper then ''0123456789ABCDEF'' else ''0123456789abcdef'')"
proof -
  have "d mod 16 < 16" by simp
  then have "d mod 16 < length (if upper then ''0123456789ABCDEF'' else ''0123456789abcdef'')"
    by simp
  then show ?thesis unfolding hex_digit_def by (rule nth_mem)
qed

lemma hex_nat_chars:
  "set (hex_nat upper n) \<subseteq> set (if upper then ''0123456789ABCDEF'' else ''0123456789abcdef'')"
proof (induction upper n rule: hex_nat.induct)
  case (1 upper n)
  show ?case
  proof (cases "n < 16")
    case True
    then have "hex_nat upper n = [hex_digit upper n]" by (simp add: hex_nat.simps)
    then show ?thesis using hex_digit_char [of upper n] by simp
  next
    case False
    then have e: "hex_nat upper n = hex_nat upper (n div 16) @ [hex_digit upper (n mod 16)]"
      by (simp add: hex_nat.simps)
    show ?thesis unfolding e using "1.IH" [OF False] hex_digit_char [of upper "n mod 16"] by simp
  qed
qed

lemma hex_nat_nonempty: "hex_nat upper n \<noteq> []"
  by (subst hex_nat.simps) simp

lemma hex_nat_length: "n < 16 ^ k \<Longrightarrow> 0 < k \<Longrightarrow> length (hex_nat upper n) \<le> k"
proof (induction upper n arbitrary: k rule: hex_nat.induct)
  case (1 upper n)
  show ?case
  proof (cases "n < 16")
    case True
    then have "hex_nat upper n = [hex_digit upper n]" by (simp add: hex_nat.simps)
    then show ?thesis using "1.prems" by simp
  next
    case False
    then have e: "hex_nat upper n = hex_nat upper (n div 16) @ [hex_digit upper (n mod 16)]"
      by (simp add: hex_nat.simps)
    obtain j where k: "k = Suc j" using "1.prems"(2) by (cases k) simp_all
    have j0: "0 < j"
    proof (rule ccontr)
      assume "\<not> 0 < j"
      then have "k = 1" using k by simp
      then show False using "1.prems"(1) False by simp
    qed
    have "n < 16 * 16 ^ j" using "1.prems"(1) k by simp
    then have "n div 16 < 16 ^ j" by (simp add: less_mult_imp_div_less mult.commute)
    then have "length (hex_nat upper (n div 16)) \<le> j"
      using "1.IH" [OF False] j0 by simp
    then show ?thesis unfolding e using k by simp
  qed
qed

lemma format_hex_length:
  assumes "0 \<le> v" "v < 16 ^ w" "0 < w"
  shows "length (format_hex upper w v) = w"
proof -
  have "nat v < 16 ^ w" using assms(1,2) by (simp add: nat_less_iff)
  then have "length (hex_nat upper (nat v)) \<le> w" using assms(3) by (rule hex_nat_length)
  then show ?thesis using assms(1) by (simp add: format_hex_def zfill_def)
qed

lemma format_hex_chars:
  assumes "0 \<le> v"
  shows "set (format_hex upper w v) \<subseteq> set (if upper then ''0123456789ABCDEF'' else ''0123456789abcdef'')"
proof -
  define H where "H = set (if upper then ''0123456789ABCDEF'' else ''0123456789abcdef'')"
  have z: "CHR ''0'' \<in> H" by (simp add: H_def)
  have hn: "set (hex_nat upper (nat v)) \<subseteq> H" unfolding H_def by (rule hex_nat_chars)
  have "set (zfill w (hex_nat upper (nat v))) \<subseteq> H"
    using z hn by (auto simp: zfill_def)
  then have "set (format_hex upper w v) \<subseteq> H"
    using assms by (simp add: format_hex_def)
  then show ?thesis unfolding H_def .
qed

lemma format_hex_nonempty: "format_hex upper w v \<noteq> []"
  by (simp add: format_hex_def zfill_def hex_nat_nonempty)

subsection \<open>The arccosine sampler and its quantizer\<close>

lemma acos_val_range: "- 1 \<le> acos_val i \<and> acos_val i \<le> 1"
  by (simp add: acos_val_def)

lemma math_acos_val: "math_acos (acos_val i) = Inr (arccos (acos_val i))"
  using acos_val_range [of i] by (simp add: math_acos_def)

lemma arccos_acos_val_range: "0 \<le> arccos (acos_val i) \<and> arccos (acos_val i) \<le> pi"
  using acos_val_range [of i] by (simp add: arccos_bounded)

lemma theta_q13_range:
  assumes "0 \<le> t" "t \<le> pi"
  shows "0 \<le> theta_q13 t \<and> theta_q13 t \<le> 25736"
proof -
  have "t * 2 ^ 13 \<le> pi * 2 ^ 13" using assms(2) by simp
  moreover have "pi * 2 ^ 13 \<le> 25736" using pi_bounds by simp
  ultimately have hi: "t * 2 ^ 13 \<le> real_of_int 25736" by simp
  have lo: "real_of_int 0 \<le> t * 2 ^ 13" using assms(1) by simp
  show ?thesis unfolding theta_q13_def using lo hi by (rule py_round_bounds)
qed

lemma theta_q13_pi: "theta_q13 pi = 25736"
proof -
  have a: "25735 + 1 / 2 < pi * 2 ^ 13" using pi_bounds by simp
  have b: "pi * 2 ^ 13 < 25736" using pi_bounds by simp
  have f: "\<lfloor>pi * 2 ^ 13\<rfloor> = 25735" using a b by (simp add: floor_eq_iff)
  have d: "1 / 2 < pi * 2 ^ 13 - real_of_int 25735" using a by simp
  show ?thesis unfolding theta_q13_def py_round_def Let_def f using d by simp
qed

lemma acos_val_0: "acos_val 0 = - 1"
  by (simp add: acos_val_def)

lemma acos_val_255: "acos_val 255 = 1"
  by (simp add: acos_val_def)

subsection \<open>Clamping a value that is already in range\<close>

lemma clamp16_id: "0 \<le> q \<Longrightarrow> q \<le> 32767 \<Longrightarrow> spec_clamp 16 True q = q \<and> spec_clamp 16 False q = q"
  by (simp add: spec_clamp_def)

subsection \<open>The write loop and the lines of the file\<close>

lemma write_loop_all:
  assumes "\<And>i. i \<in> set js \<Longrightarrow> body i = Inr (r i @ newline)"
  shows "write_loop body js f = (f @ concat (map (\<lambda>i. r i @ newline) js), None)"
  using assms
proof (induction js arbitrary: f)
  case Nil
  show ?case by simp
next
  case (Cons j js)
  have b: "body j = Inr (r j @ newline)" using Cons.prems by simp
  have "write_loop body js (f @ r j @ newline)
      = ((f @ r j @ newline) @ concat (map (\<lambda>i. r i @ newline) js), None)"
    using Cons.prems by (intro Cons.IH) simp
  then show ?case using b by simp
qed

lemma lines_of_Nil: "lines_of [] = []"
  by (simp add: lines_of_def)

lemma lines_of_line:
  assumes "CHR 0x0A \<notin> set l"
  shows "lines_of (l @ newline @ rest) = l # lines_of rest"
  using assms
proof (induction l)
  case Nil
  show ?case by (simp add: lines_of_def newline_def)
next
  case (Cons c l)
  have c: "c \<noteq> CHR 0x0A" using Cons.prems by auto
  have ih: "lines_of (l @ newline @ rest) = l # lines_of rest"
    using Cons.prems by (intro Cons.IH) simp
  have "lines_of ((c # l) @ newline @ rest)
      = (case lines_of (l @ newline @ rest) of [] \<Rightarrow> [[c]] | x # xs \<Rightarrow> (c # x) # xs)"
    using c by (simp add: lines_of_def)
  then show ?case using ih by simp
qed

lemma lines_of_records:
  assumes "\<And>i. i \<in> set js \<Longrightarrow> CHR 0x0A \<notin> set (r i)"
  shows "lines_of (concat (map (\<lambda>i. r i @ newline) js)) = map r js"
  using assms
proof (induction js)
  case Nil
  show ?case by (simp add: lines_of_Nil)
next
  case (Cons j js)
  have "lines_of (r j @ newline @ concat (map (\<lambda>i. r i @ newline) js))
      = r j # lines_of (concat (map (\<lambda>i. r i @ newline) js))"
    using Cons.prems by (intro lines_of_line) simp
  then show ?case using Cons by simp
qed

lemma hex_not_comment:
  assumes "0 \<le> v"
  shows "\<not> is_comment (format_hex upper w v) \<and> CHR 0x0A \<notin> set (format_hex upper w v)"
proof -
  let ?l = "format_hex upper w v"
  have sub: "set ?l \<subseteq> set (if upper then ''0123456789ABCDEF'' else ''0123456789abcdef'')"
    using assms by (rule format_hex_chars)
  have s: "CHR ''/'' \<notin> set ?l" using sub by (auto split: if_splits)
  have n: "CHR 0x0A \<notin> set ?l" using sub by (auto split: if_splits)
  obtain c cs where l: "?l = c # cs" using format_hex_nonempty [of upper w v] by (cases ?l) auto
  have "c \<noteq> CHR ''/''" using s l by auto
  then have "\<not> is_comment ?l" unfolding l by (cases cs) (auto simp: is_comment_def)
  then show ?thesis using n by simp
qed

lemma packed_word_nonneg:
  assumes "0 \<le> s" "s \<le> 1"
  shows "0 \<le> pack_val (sig_d_fixed (s * (1 - s))) (sig_fixed s)"
proof -
  have dr: "0 \<le> s * (1 - s) \<and> s * (1 - s) \<le> 1 / 4"
    using assms by (rule derivative_range)
  have q: "0 \<le> sig_d_fixed (s * (1 - s))"
    using sig_d_fixed_range [of "s * (1 - s)"] dr by simp
  have m: "0 \<le> sig_fixed s mod 65536" by simp
  have "0 \<le> sig_d_fixed (s * (1 - s)) * 65536 + sig_fixed s mod 65536"
    using q m by linarith
  then show ?thesis by (simp only: pack_val_arith)
qed

lemma lut_body_record:
  "\<exists>l. lut_body i = Inr (l @ newline) \<and> \<not> is_comment l \<and> CHR 0x0A \<notin> set l"
proof -
  obtain s where s: "sigmoid (lut_x i) = Inr s" "0 \<le> s" "s \<le> 1"
    using sigmoid_range by blast
  have d: "sigmoid_derivative (lut_x i) = Inr (s * (1 - s))"
    using s(1) by (rule sigmoid_derivative_value)
  let ?v = "pack_val (sig_d_fixed (s * (1 - s))) (sig_fixed s)"
  have b: "lut_body i = Inr (format_hex True 8 ?v @ newline)"
    by (simp add: lut_body_def s(1) d)
  have "0 \<le> ?v" using s(2,3) by (rule packed_word_nonneg)
  then have "\<not> is_comment (format_hex True 8 ?v) \<and> CHR 0x0A \<notin> set (format_hex True 8 ?v)"
    by (rule hex_not_comment)
  then show ?thesis using b by blast
qed

lemma acos_body_record:
  "\<exists>l. acos_body i = Inr (l @ newline) \<and> \<not> is_comment l \<and> CHR 0x0A \<notin> set l"
proof -
  let ?q = "theta_q13 (arccos (acos_val i))"
  have b: "acos_body i = Inr (format_hex False 4 ?q @ newline)"
    by (simp add: acos_body_def math_acos_val)
  have "0 \<le> ?q" using arccos_acos_val_range [of i] by (simp add: theta_q13_range)
  then have "\<not> is_comment (format_hex False 4 ?q) \<and> CHR 0x0A \<notin> set (format_hex False 4 ?q)"
    by (rule hex_not_comment)
  then show ?thesis using b by blast
qed

lemma records_filter:
  assumes "\<And>i. i \<in> set js \<Longrightarrow> \<not> is_comment (r i)"
  shows "filter (\<lambda>l. \<not> is_comment l) (map r js) = map r js \<and> filter is_comment (map r js) = []"
  using assms by (induction js) simp_all

lemma lut_header_lines:
  assumes "\<And>i. i \<in> set js \<Longrightarrow> CHR 0x0A \<notin> set (r i)"
  shows "lines_of ([] @ lut_header ! 0 @ newline @ lut_header ! 1 @ newline @ lut_header ! 2 @ newline
            @ concat (map (\<lambda>i. r i @ newline) js))
         = lut_header @ map r js"
proof -
  let ?R = "concat (map (\<lambda>i. r i @ newline) js)"
  have r: "lines_of ?R = map r js" using assms by (rule lines_of_records)
  have h2: "lines_of (lut_header ! 2 @ newline @ ?R) = lut_header ! 2 # lines_of ?R"
    by (rule lines_of_line) (simp add: lut_header_def)
  have h1: "lines_of (lut_header ! 1 @ newline @ lut_header ! 2 @ newline @ ?R)
      = lut_header ! 1 # lines_of (lut_header ! 2 @ newline @ ?R)"
    by (rule lines_of_line) (simp add: lut_header_def)
  have h0: "lines_of (lut_header ! 0 @ newline @ lut_header ! 1 @ newline @ lut_header ! 2 @ newline @ ?R)
      = lut_header ! 0 # lines_of (lut_header ! 1 @ newline @ lut_header ! 2 @ newline @ ?R)"
    by (rule lines_of_line) (simp add: lut_header_def)
  have l: "lut_header = [lut_header ! 0, lut_header ! 1, lut_header ! 2]"
    by (simp add: lut_header_def)
  have "lines_of (lut_header ! 0 @ newline @ lut_header ! 1 @ newline @ lut_header ! 2 @ newline @ ?R)
      = [lut_header ! 0, lut_header ! 1, lut_header ! 2] @ map r js"
    by (simp only: h0 h1 h2 r append.simps)
  then show ?thesis using l by simp
qed

lemma lut_header_comments:
  "filter is_comment lut_header = lut_header \<and> filter (\<lambda>l. \<not> is_comment l) lut_header = []"
  by (simp add: lut_header_def is_comment_def)

lemma lut_loop:
  "\<exists>f. write_loop lut_body js
          ((([] @ lut_header ! 0 @ newline) @ lut_header ! 1 @ newline) @ lut_header ! 2 @ newline)
        = (f, None)
     \<and> lines_of f = lut_header @ data_records f
     \<and> comment_lines f = lut_header
     \<and> length (data_records f) = length js
     \<and> map (\<lambda>l. Inr (l @ newline)) (data_records f) = map lut_body js
     \<and> f = concat (map (\<lambda>l. l @ newline) (lut_header @ data_records f))"
proof -
  obtain r where r: "\<And>i. lut_body i = Inr (r i @ newline)"
      "\<And>i. \<not> is_comment (r i)" "\<And>i. CHR 0x0A \<notin> set (r i)"
    using lut_body_record by metis
  define H where
    "H = (([] @ lut_header ! 0 @ newline) @ lut_header ! 1 @ newline) @ lut_header ! 2 @ newline"
  define R where "R = concat (map (\<lambda>i. r i @ newline) js)"
  have w: "write_loop lut_body js H = (H @ R, None)"
    unfolding R_def by (rule write_loop_all) (rule r(1))
  have HR: "H @ R = [] @ lut_header ! 0 @ newline @ lut_header ! 1 @ newline @ lut_header ! 2 @ newline @ R"
    by (simp add: H_def)
  have "lines_of ([] @ lut_header ! 0 @ newline @ lut_header ! 1 @ newline @ lut_header ! 2 @ newline
            @ concat (map (\<lambda>i. r i @ newline) js)) = lut_header @ map r js"
    by (rule lut_header_lines) (rule r(3))
  then have l: "lines_of (H @ R) = lut_header @ map r js"
    by (simp add: H_def R_def)
  have flt: "filter (\<lambda>l. \<not> is_comment l) (map r js) = map r js \<and> filter is_comment (map r js) = []"
    by (rule records_filter) (rule r(2))
  have dr: "data_records (H @ R) = map r js"
    using flt lut_header_comments by (simp add: data_records_def l)
  have cl: "comment_lines (H @ R) = lut_header"
    using flt lut_header_comments by (simp add: comment_lines_def l)
  have mp: "map (\<lambda>l. Inr (l @ newline)) (map r js) = map lut_body js"
    by (simp add: r(1))
  have Hc: "H = concat (map (\<lambda>l. l @ newline) lut_header)"
    by (simp add: H_def lut_header_def)
  have Rc: "R = concat (map (\<lambda>l. l @ newline) (map r js))"
    by (simp add: R_def comp_def)
  have cc: "H @ R = concat (map (\<lambda>l. l @ newline) (lut_header @ map r js))"
    using Hc Rc by simp
  have c2: "lines_of (H @ R) = lut_header @ data_records (H @ R)" by (simp only: l dr)
  have c3: "comment_lines (H @ R) = lut_header" by (rule cl)
  have c4: "length (data_records (H @ R)) = length js" by (simp only: dr length_map)
  have c5: "map (\<lambda>l. Inr (l @ newline)) (data_records (H @ R)) = map lut_body js"
    by (simp only: dr mp)
  have c6: "H @ R = concat (map (\<lambda>l. l @ newline) (lut_header @ data_records (H @ R)))"
    unfolding dr by (rule cc)
  show ?thesis using w c2 c3 c4 c5 c6 unfolding H_def by blast
qed

lemma acos_loop:
  "\<exists>f. write_loop acos_body js [] = (f, None)
     \<and> lines_of f = data_records f
     \<and> length (data_records f) = length js
     \<and> map (\<lambda>l. Inr (l @ newline)) (data_records f) = map acos_body js
     \<and> f = concat (map (\<lambda>l. l @ newline) (data_records f))"
proof -
  obtain r where r: "\<And>i. acos_body i = Inr (r i @ newline)"
      "\<And>i. \<not> is_comment (r i)" "\<And>i. CHR 0x0A \<notin> set (r i)"
    using acos_body_record by metis
  define R where "R = concat (map (\<lambda>i. r i @ newline) js)"
  have "write_loop acos_body js [] = ([] @ R, None)"
    unfolding R_def by (rule write_loop_all) (rule r(1))
  then have w: "write_loop acos_body js [] = (R, None)" by simp
  have l: "lines_of R = map r js"
    unfolding R_def by (rule lines_of_records) (rule r(3))
  have flt: "filter (\<lambda>l. \<not> is_comment l) (map r js) = map r js \<and> filter is_comment (map r js) = []"
    by (rule records_filter) (rule r(2))
  have dr: "data_records R = map r js"
    using flt by (simp add: data_records_def l)
  have mp: "map (\<lambda>l. Inr (l @ newline)) (map r js) = map acos_body js"
    by (simp add: r(1))
  have Rc: "R = concat (map (\<lambda>l. l @ newline) (map r js))"
    by (simp add: R_def comp_def)
  have c2: "lines_of R = data_records R" by (simp only: l dr)
  have c3: "length (data_records R) = length js" by (simp only: dr length_map)
  have c4: "map (\<lambda>l. Inr (l @ newline)) (data_records R) = map acos_body js"
    by (simp only: dr mp)
  have c5: "R = concat (map (\<lambda>l. l @ newline) (data_records R))"
    unfolding dr by (rule Rc)
  show ?thesis using w c2 c3 c4 c5 by blast
qed

section \<open>The claims\<close>

text \<open>
  Claim C9. For every input \<open>x\<close> the derivative of the sigmoid lies between 0 and 1/4, so
  its quantized integer lies between 0 and 8191 and needs at most 14 bits. The shift by
  16 in the pack step, which has no mask, therefore sets no bit at position 32 or above:
  every packed word is at least 0 and below \<open>2^32\<close>.
\<close>

theorem derivative_channel_fits_word:
  "\<exists>s d. sigmoid x = Inr s \<and> sigmoid_derivative x = Inr d
      \<and> 0 \<le> d \<and> d \<le> 1 / 4
      \<and> 0 \<le> sig_d_fixed d \<and> sig_d_fixed d \<le> 8191 \<and> sig_d_fixed d < 2 ^ 14
      \<and> 0 \<le> pack_val (sig_d_fixed d) (sig_fixed s)
      \<and> pack_val (sig_d_fixed d) (sig_fixed s) < 2 ^ 32"
proof -
  obtain s where s: "sigmoid x = Inr s" "0 \<le> s" "s \<le> 1"
    using sigmoid_range by blast
  let ?d = "s * (1 - s)"
  have d: "sigmoid_derivative x = Inr ?d"
    using s(1) by (rule sigmoid_derivative_value)
  have dr: "0 \<le> ?d \<and> ?d \<le> 1 / 4"
    using s(2,3) by (rule derivative_range)
  have q: "0 \<le> sig_d_fixed ?d \<and> sig_d_fixed ?d \<le> 8191"
    using sig_d_fixed_range [of ?d] dr by simp
  have m: "0 \<le> sig_fixed s mod 65536 \<and> sig_fixed s mod 65536 < 65536"
    by simp
  have p: "pack_val (sig_d_fixed ?d) (sig_fixed s) = sig_d_fixed ?d * 65536 + sig_fixed s mod 65536"
    by (rule pack_val_arith)
  have p0: "0 \<le> pack_val (sig_d_fixed ?d) (sig_fixed s)"
    using p q m by linarith
  have w: "(2::int) ^ 32 = 4294967296" by simp
  have p1: "pack_val (sig_d_fixed ?d) (sig_fixed s) < 2 ^ 32"
    unfolding w using p q m by linarith
  show ?thesis using s(1) d dr q p0 p1 by auto
qed

text \<open>
  Claim C4. For the two quantized channels of every input of the sigmoid generator, the
  packed word equals what masking each channel to 16 bits, shifting it to its position
  and combining with bitwise OR gives: the derivative is read back from the bits 31 to
  16 and the sigmoid from the bits 15 to 0. The channels \<open>0x1234\<close> and \<open>0x5678\<close> pack
  to \<open>0x56781234\<close>.
\<close>

theorem pack_val_layout:
  "(\<exists>s d. sigmoid x = Inr s \<and> sigmoid_derivative x = Inr d
      \<and> pack_val (sig_d_fixed d) (sig_fixed s) = spec_pack (sig_d_fixed d) (sig_fixed s)
      \<and> drop_bit 16 (pack_val (sig_d_fixed d) (sig_fixed s)) = sig_d_fixed d
      \<and> take_bit 16 (pack_val (sig_d_fixed d) (sig_fixed s)) = sig_fixed s)
   \<and> pack_val 0x5678 0x1234 = 0x56781234
   \<and> spec_pack 0x5678 0x1234 = 0x56781234"
proof -
  obtain s where s: "sigmoid x = Inr s" "0 \<le> s" "s \<le> 1"
    using sigmoid_range by blast
  let ?d = "s * (1 - s)"
  have d: "sigmoid_derivative x = Inr ?d"
    using s(1) by (rule sigmoid_derivative_value)
  have dr: "0 \<le> ?d \<and> ?d \<le> 1 / 4"
    using s(2,3) by (rule derivative_range)
  have q: "0 \<le> sig_d_fixed ?d \<and> sig_d_fixed ?d \<le> 8191"
    using sig_d_fixed_range [of ?d] dr by simp
  have r: "0 \<le> sig_fixed s \<and> sig_fixed s \<le> 32767"
    using sig_fixed_range [of s] s(2,3) by simp
  have qm: "sig_d_fixed ?d mod 65536 = sig_d_fixed ?d"
    using q by simp
  have rm: "sig_fixed s mod 65536 = sig_fixed s"
    using r by simp
  have e: "pack_val (sig_d_fixed ?d) (sig_fixed s) = spec_pack (sig_d_fixed ?d) (sig_fixed s)"
    by (simp add: pack_val_arith spec_pack_arith qm)
  have hi: "drop_bit 16 (pack_val (sig_d_fixed ?d) (sig_fixed s)) = sig_d_fixed ?d"
    using r by (simp add: pack_val_arith drop_bit_eq_div rm)
  have lo: "take_bit 16 (pack_val (sig_d_fixed ?d) (sig_fixed s)) = sig_fixed s"
    using r by (simp add: pack_val_arith take_bit_eq_mod rm)
  have ex: "pack_val 0x5678 0x1234 = 0x56781234 \<and> spec_pack 0x5678 0x1234 = 0x56781234"
    by (simp add: pack_val_arith spec_pack_arith)
  show ?thesis using s(1) d e hi lo ex by blast
qed

text \<open>
  Claim C2, as amended. In the sigmoid generator every input \<open>x < -10\<close> gives the
  quantized sigmoid channel 0 and every input \<open>x > 10\<close> gives \<open>0x7FFF\<close> (32767). The
  comparisons of \<^verbatim>\<open>sigmoid\<close> are strict, so the boundary inputs are evaluated by the
  formula and are not part of the statement.
\<close>

theorem sigmoid_saturation:
  "(x < - 10 \<longrightarrow> sigmoid x = Inr 0 \<and> sig_fixed 0 = 0)
   \<and> (10 < x \<longrightarrow> sigmoid x = Inr 1 \<and> sig_fixed 1 = 0x7FFF)"
  by (simp add: sigmoid_def sig_fixed_def py_int_def)

theorem sigmoid_saturation_witness:
  "(- 11 :: real) < - 10 \<and> sigmoid (- 11) = Inr 0 \<and> sig_fixed 0 = 0
   \<and> (10 :: real) < 11 \<and> sigmoid 11 = Inr 1 \<and> sig_fixed 1 = 0x7FFF"
  using sigmoid_saturation [of "- 11"] sigmoid_saturation [of 11] by simp

text \<open>
  Claim C2 as it was stated fails at the boundaries, where the formula is evaluated: the input \<open>-10\<close> gives the
  channel value 1, not 0, and the input \<open>10\<close> gives 32765, not 32767.
\<close>

theorem sigmoid_boundary_not_saturated:
  "sigmoid (- 10) = Inr (1 / (1 + exp 10)) \<and> sig_fixed (1 / (1 + exp 10)) = 1
   \<and> sigmoid 10 = Inr (1 / (1 + exp (- 10))) \<and> sig_fixed (1 / (1 + exp (- 10))) = 32765"
proof -
  have E: "(22025 :: real) < exp 10" "exp (10::real) < 22028"
    using exp_ten_bounds by simp_all
  have a: "sigmoid (- 10) = Inr (1 / (1 + exp 10))" by (simp add: sigmoid_value)
  have b: "sigmoid 10 = Inr (1 / (1 + exp (- 10)))" by (simp add: sigmoid_value)
  have l1: "1 \<le> 1 / (1 + exp (10::real)) * 32767" using E by (simp add: field_simps)
  have l2: "1 / (1 + exp (10::real)) * 32767 < 2" using E by (simp add: field_simps)
  have f1: "\<lfloor>1 / (1 + exp (10::real)) * 32767\<rfloor> = 1"
    using l1 l2 by (simp add: floor_eq_iff)
  have n1: "0 \<le> 1 / (1 + exp (10::real)) * 32767" using l1 by linarith
  have c: "sig_fixed (1 / (1 + exp 10)) = 1"
    by (simp only: sig_fixed_def py_int_nonneg [OF n1] f1)
  have t: "exp (- 10 :: real) = 1 / exp 10" by (simp add: exp_minus divide_inverse)
  have t1: "exp (- 10 :: real) < 1 / 22025" unfolding t using E by (simp add: field_simps)
  have t2: "1 / 22028 < exp (- 10 :: real)" unfolding t using E by (simp add: field_simps)
  have u1: "32765 \<le> 1 / (1 + exp (- 10 :: real)) * 32767" using t1 t2 by (simp add: field_simps)
  have u2: "1 / (1 + exp (- 10 :: real)) * 32767 < 32766" using t1 t2 by (simp add: field_simps)
  have f2: "\<lfloor>1 / (1 + exp (- 10 :: real)) * 32767\<rfloor> = 32765"
    using u1 u2 by (simp add: floor_eq_iff)
  have n2: "0 \<le> 1 / (1 + exp (- 10 :: real)) * 32767" using u1 by linarith
  have d: "sig_fixed (1 / (1 + exp (- 10))) = 32765"
    by (simp only: sig_fixed_def py_int_nonneg [OF n2] f2)
  show ?thesis using a b c d by simp
qed

text \<open>
  Claim C6. In the arccosine generator the index 0 samples \<open>x = -1\<close> and writes the
  quantized Q2.13 value of \<open>acos(-1) = \<pi>\<close>, which is 25736, as the record \<^verbatim>\<open>6488\<close>; the
  index 255 samples \<open>x = 1\<close> and writes the quantized value of \<open>acos(1) = 0\<close> as the
  record \<^verbatim>\<open>0000\<close>.
\<close>

theorem acos_end_records:
  "acos_val 0 = - 1 \<and> math_acos (acos_val 0) = Inr (arccos (- 1)) \<and> arccos (- 1) = pi
   \<and> theta_q13 (arccos (- 1)) = 25736
   \<and> format_hex False 4 25736 = ''6488''
   \<and> acos_body 0 = Inr (''6488'' @ newline)
   \<and> acos_val 255 = 1 \<and> math_acos (acos_val 255) = Inr (arccos 1)
   \<and> theta_q13 (arccos 1) = 0
   \<and> acos_body 255 = Inr (''0000'' @ newline)"
proof -
  have h1: "format_hex False 4 25736 = ''6488''"
    by (simp add: format_hex_def zfill_def hex_nat.simps hex_digit_def)
  have h2: "format_hex False 4 0 = ''0000''"
    by (simp add: format_hex_def zfill_def hex_nat.simps hex_digit_def numeral_3_eq_3)
  have m0: "math_acos (acos_val 0) = Inr (arccos (- 1))"
    using math_acos_val [of 0] by (simp add: acos_val_0)
  have m255: "math_acos (acos_val 255) = Inr (arccos 1)"
    using math_acos_val [of 255] by (simp only: acos_val_255)
  have q0: "theta_q13 (arccos (- 1)) = 25736" by (simp add: theta_q13_pi)
  have q255: "theta_q13 (arccos 1) = 0" by (simp add: theta_q13_def py_round_def)
  have b0: "acos_body 0 = Inr (''6488'' @ newline)"
    unfolding acos_body_def m0 by (simp only: sum.case q0 h1)
  have b255: "acos_body 255 = Inr (''0000'' @ newline)"
    unfolding acos_body_def m255 by (simp only: sum.case q255 h2)
  show ?thesis using acos_val_0 acos_val_255 m0 m255 q0 q255 h1 b0 b255 by simp
qed

text \<open>
  Claim C7. For every index \<open>i\<close> the sampler of the arccosine generator computes
  \<open>x = i / ((N - 1) / 2) - 1\<close> with \<open>N = 256\<close>, the divisor being 127.5, and clamps it to
  \<open>[-1, 1]\<close>: the value handed to the arccosine lies in \<open>[-1, 1]\<close>, and the arccosine
  does not raise. The statement holds for every natural number, so for the indices
  below 256 in particular.
\<close>

theorem acos_val_in_domain:
  "acos_val i = max (- 1) (min 1 (real i / ((256 - 1) / 2) - 1))
   \<and> - 1 \<le> acos_val i \<and> acos_val i \<le> 1
   \<and> math_acos (acos_val i) = Inr (arccos (acos_val i))"
proof -
  have "acos_val i = max (- 1) (min 1 (real i / ((256 - 1) / 2) - 1))"
    by (simp add: acos_val_def)
  then show ?thesis using acos_val_range [of i] math_acos_val [of i] by simp
qed

text \<open>
  Claim C10. For every index \<open>i\<close> the quantized value of the arccosine generator lies
  between 0 and 25736; it is not negative and below \<open>2^16\<close>, so the record written is
  exactly four hexadecimal characters. The statement holds for every natural number,
  so for the indices below 256 in particular.
\<close>

theorem acos_record_four_digits:
  "\<exists>t. math_acos (acos_val i) = Inr t
     \<and> 0 \<le> theta_q13 t \<and> theta_q13 t \<le> 25736 \<and> theta_q13 t < 2 ^ 16
     \<and> acos_body i = Inr (format_hex False 4 (theta_q13 t) @ newline)
     \<and> length (format_hex False 4 (theta_q13 t)) = 4
     \<and> set (format_hex False 4 (theta_q13 t)) \<subseteq> set ''0123456789abcdef''"
proof -
  let ?t = "arccos (acos_val i)"
  have m: "math_acos (acos_val i) = Inr ?t" by (rule math_acos_val)
  have r: "0 \<le> theta_q13 ?t \<and> theta_q13 ?t \<le> 25736"
    using arccos_acos_val_range [of i] by (simp add: theta_q13_range)
  then have w: "theta_q13 ?t < 2 ^ 16" by simp
  have w': "theta_q13 ?t < 16 ^ 4" using r by simp
  have b: "acos_body i = Inr (format_hex False 4 (theta_q13 ?t) @ newline)"
    by (simp add: acos_body_def m)
  have l: "length (format_hex False 4 (theta_q13 ?t)) = 4"
    using r w' by (simp add: format_hex_length)
  have c: "set (format_hex False 4 (theta_q13 ?t)) \<subseteq> set ''0123456789abcdef''"
    using format_hex_chars [of "theta_q13 ?t" False 4] r by simp
  show ?thesis using m r w b l c by blast
qed

text \<open>
  Claim C1, as amended. Each channel value \<open>v\<close> of the sigmoid generator is quantized
  to the integer part of \<open>v * 32767\<close>: the scale is 32767, not \<open>2^15\<close>, and the result
  is truncated, not rounded. It lies in the range of a signed 16-bit integer already,
  so that clamping it changes nothing (the code has no clamp). Each value \<open>v\<close> of the
  arccosine generator is quantized to \<open>v * 2^13\<close> rounded to the nearest integer, ties
  to even; the result is within 1/2 of \<open>v * 2^13\<close> and equals its own clamp into the
  16-bit range.
\<close>

theorem quantizers_as_coded:
  "(\<exists>s d. sigmoid x = Inr s \<and> sigmoid_derivative x = Inr d
      \<and> sig_fixed s = \<lfloor>s * 32767\<rfloor> \<and> sig_d_fixed d = \<lfloor>d * 32767\<rfloor>
      \<and> spec_clamp 16 True (sig_fixed s) = sig_fixed s
      \<and> spec_clamp 16 True (sig_d_fixed d) = sig_d_fixed d)
   \<and> (\<exists>t. math_acos (acos_val i) = Inr t
      \<and> theta_q13 t = py_round (t * 2 ^ 13)
      \<and> \<bar>real_of_int (theta_q13 t) - t * 2 ^ 13\<bar> \<le> 1 / 2
      \<and> theta_q13 t = spec_clamp 16 True (py_round (t * 2 ^ 13)))"
proof -
  obtain s where s: "sigmoid x = Inr s" "0 \<le> s" "s \<le> 1"
    using sigmoid_range by blast
  let ?d = "s * (1 - s)"
  have d: "sigmoid_derivative x = Inr ?d"
    using s(1) by (rule sigmoid_derivative_value)
  have dr: "0 \<le> ?d \<and> ?d \<le> 1 / 4"
    using s(2,3) by (rule derivative_range)
  have q: "sig_d_fixed ?d = \<lfloor>?d * 32767\<rfloor> \<and> 0 \<le> sig_d_fixed ?d \<and> sig_d_fixed ?d \<le> 8191"
    using sig_d_fixed_range [of ?d] dr by simp
  have r: "sig_fixed s = \<lfloor>s * 32767\<rfloor> \<and> 0 \<le> sig_fixed s \<and> sig_fixed s \<le> 32767"
    using sig_fixed_range [of s] s(2,3) by simp
  have r': "0 \<le> sig_fixed s" "sig_fixed s \<le> 32767" using r by blast+
  have q': "0 \<le> sig_d_fixed ?d" "sig_d_fixed ?d \<le> 32767" using q by linarith+
  have cs: "spec_clamp 16 True (sig_fixed s) = sig_fixed s"
    using clamp16_id [OF r'] by simp
  have cd: "spec_clamp 16 True (sig_d_fixed ?d) = sig_d_fixed ?d"
    using clamp16_id [OF q'] by simp
  have left: "\<exists>s d. sigmoid x = Inr s \<and> sigmoid_derivative x = Inr d
      \<and> sig_fixed s = \<lfloor>s * 32767\<rfloor> \<and> sig_d_fixed d = \<lfloor>d * 32767\<rfloor>
      \<and> spec_clamp 16 True (sig_fixed s) = sig_fixed s
      \<and> spec_clamp 16 True (sig_d_fixed d) = sig_d_fixed d"
    using s(1) d q r cs cd by blast
  let ?t = "arccos (acos_val i)"
  have m: "math_acos (acos_val i) = Inr ?t" by (rule math_acos_val)
  have tr: "0 \<le> theta_q13 ?t \<and> theta_q13 ?t \<le> 25736"
    using arccos_acos_val_range [of i] by (simp add: theta_q13_range)
  have e: "theta_q13 ?t = py_round (?t * 2 ^ 13)" by (simp add: theta_q13_def)
  have n: "\<bar>real_of_int (theta_q13 ?t) - ?t * 2 ^ 13\<bar> \<le> 1 / 2"
    unfolding theta_q13_def by (rule py_round_near)
  have c: "theta_q13 ?t = spec_clamp 16 True (py_round (?t * 2 ^ 13))"
    using tr clamp16_id [of "theta_q13 ?t"] e by simp
  have right: "\<exists>t. math_acos (acos_val i) = Inr t
      \<and> theta_q13 t = py_round (t * 2 ^ 13)
      \<and> \<bar>real_of_int (theta_q13 t) - t * 2 ^ 13\<bar> \<le> 1 / 2
      \<and> theta_q13 t = spec_clamp 16 True (py_round (t * 2 ^ 13))"
    using m e n c by blast
  show ?thesis using left right by simp
qed

text \<open>
  Claim C1 as it was stated fails at the entry 512 of the sigmoid table: the input is
  0, the sigmoid is 1/2, and the code gives 16383 where rounding \<open>1/2 * 2^15\<close> gives
  16384 under either rule for ties.
\<close>

theorem sigmoid_entry_512_truncated:
  "lut_x 512 = 0 \<and> sigmoid (lut_x 512) = Inr (1 / 2) \<and> sig_fixed (1 / 2) = 16383
   \<and> spec_quantize 16 15 True (1 / 2) = 16384
   \<and> spec_clamp 16 True (py_round (1 / 2 * 2 ^ 15)) = 16384"
proof -
  have a: "sigmoid (lut_x 512) = Inr (1 / 2)"
    by (simp add: lut_x_512 sigmoid_value)
  have f: "\<lfloor>32767 / 2 :: real\<rfloor> = 16383"
    by (simp add: floor_eq_iff)
  have b: "sig_fixed (1 / 2) = 16383"
    using f by (simp add: sig_fixed_def py_int_def)
  have c: "spec_quantize 16 15 True (1 / 2) = 16384"
    by (simp add: spec_quantize_def spec_clamp_def spec_round_def)
  have d: "spec_clamp 16 True (py_round (1 / 2 * 2 ^ 15)) = 16384"
    by (simp add: spec_clamp_def py_round_def)
  show ?thesis using lut_x_512 a b c d by simp
qed

text \<open>
  Claim C3, as amended. For both channels of the sigmoid generator the decoded value
  \<open>q / 2^15\<close> is not above the real value \<open>v\<close> and is below it by less than
  \<open>2 * 2^-15\<close>. For the arccosine generator the decoded value \<open>q / 2^13\<close> differs
  from \<open>v\<close> by at most \<open>2^-13\<close>.
\<close>

theorem round_trip_error:
  "(\<exists>s d. sigmoid x = Inr s \<and> sigmoid_derivative x = Inr d
      \<and> 0 \<le> s - real_of_int (sig_fixed s) / 2 ^ 15
      \<and> s - real_of_int (sig_fixed s) / 2 ^ 15 < 2 / 2 ^ 15
      \<and> 0 \<le> d - real_of_int (sig_d_fixed d) / 2 ^ 15
      \<and> d - real_of_int (sig_d_fixed d) / 2 ^ 15 < 2 / 2 ^ 15)
   \<and> (\<exists>t. math_acos (acos_val i) = Inr t
      \<and> \<bar>real_of_int (theta_q13 t) / 2 ^ 13 - t\<bar> \<le> 1 / 2 ^ 13)"
proof -
  obtain s where s: "sigmoid x = Inr s" "0 \<le> s" "s \<le> 1"
    using sigmoid_range by blast
  let ?d = "s * (1 - s)"
  have d: "sigmoid_derivative x = Inr ?d"
    using s(1) by (rule sigmoid_derivative_value)
  have dr: "0 \<le> ?d" "?d \<le> 1"
    using derivative_range [OF s(2,3)] by simp_all
  have q: "sig_d_fixed ?d = \<lfloor>?d * 32767\<rfloor>"
    using dr(1) by (simp add: sig_d_fixed_def py_int_nonneg)
  have r: "sig_fixed s = \<lfloor>s * 32767\<rfloor>"
    using s(2) by (simp add: sig_fixed_def py_int_nonneg)
  have es: "0 \<le> s - real_of_int (sig_fixed s) / 2 ^ 15
      \<and> s - real_of_int (sig_fixed s) / 2 ^ 15 < 2 / 2 ^ 15"
    unfolding r using s(2,3) by (rule floor_scaled_error)
  have ed: "0 \<le> ?d - real_of_int (sig_d_fixed ?d) / 2 ^ 15
      \<and> ?d - real_of_int (sig_d_fixed ?d) / 2 ^ 15 < 2 / 2 ^ 15"
    unfolding q using dr by (rule floor_scaled_error)
  have left: "\<exists>s d. sigmoid x = Inr s \<and> sigmoid_derivative x = Inr d
      \<and> 0 \<le> s - real_of_int (sig_fixed s) / 2 ^ 15
      \<and> s - real_of_int (sig_fixed s) / 2 ^ 15 < 2 / 2 ^ 15
      \<and> 0 \<le> d - real_of_int (sig_d_fixed d) / 2 ^ 15
      \<and> d - real_of_int (sig_d_fixed d) / 2 ^ 15 < 2 / 2 ^ 15"
    using s(1) d es ed by blast
  let ?t = "arccos (acos_val i)"
  have m: "math_acos (acos_val i) = Inr ?t" by (rule math_acos_val)
  have n: "\<bar>real_of_int (theta_q13 ?t) - ?t * 2 ^ 13\<bar> \<le> 1 / 2"
    unfolding theta_q13_def by (rule py_round_near)
  have p: "(2::real) ^ 13 = 8192" by simp
  have a: "\<bar>real_of_int (theta_q13 ?t) / 2 ^ 13 - ?t\<bar> \<le> 1 / 2 ^ 13"
    using n unfolding p by linarith
  have right: "\<exists>t. math_acos (acos_val i) = Inr t
      \<and> \<bar>real_of_int (theta_q13 t) / 2 ^ 13 - t\<bar> \<le> 1 / 2 ^ 13"
    using m a by blast
  show ?thesis using left right by simp
qed

text \<open>
  Claim C3 as it was stated fails at the entry 576 of the sigmoid table: the input is
  1, the sigmoid channel is 23954, and the decoded value is further than \<open>2^-15\<close>
  from the sigmoid.
\<close>

theorem sigmoid_entry_576_error:
  "lut_x 576 = 1 \<and> sigmoid (lut_x 576) = Inr (1 / (1 + exp (- 1)))
   \<and> sig_fixed (1 / (1 + exp (- 1))) = 23954
   \<and> 1 / 2 ^ 15 < 1 / (1 + exp (- 1)) - real_of_int 23954 / 2 ^ 15"
proof -
  have E: "(271827 / 100000 :: real) < exp 1" "exp (1::real) < 271829 / 100000"
    using exp_one_bounds by simp_all
  have t: "exp (- 1 :: real) = 1 / exp 1" by (simp add: exp_minus divide_inverse)
  have t1: "exp (- 1 :: real) < 100000 / 271827" unfolding t using E by (simp add: field_simps)
  have t2: "100000 / 271829 < exp (- 1 :: real)" unfolding t using E by (simp add: field_simps)
  have a: "sigmoid (lut_x 576) = Inr (1 / (1 + exp (- 1)))"
    by (simp add: lut_x_576 sigmoid_value)
  have u1: "23954 \<le> 1 / (1 + exp (- 1 :: real)) * 32767" using t1 t2 by (simp add: field_simps)
  have u2: "1 / (1 + exp (- 1 :: real)) * 32767 < 23955" using t1 t2 by (simp add: field_simps)
  have f: "\<lfloor>1 / (1 + exp (- 1 :: real)) * 32767\<rfloor> = 23954"
    using u1 u2 by (simp add: floor_eq_iff)
  have n: "0 \<le> 1 / (1 + exp (- 1 :: real)) * 32767" using u1 by linarith
  have b: "sig_fixed (1 / (1 + exp (- 1))) = 23954"
    by (simp only: sig_fixed_def py_int_nonneg [OF n] f)
  have c: "1 / 2 ^ 15 < 1 / (1 + exp (- 1 :: real)) - real_of_int 23954 / 2 ^ 15"
    using t1 t2 by (simp add: field_simps)
  show ?thesis using lut_x_576 a b c by simp
qed

text \<open>
  Claim C5. Each generator runs to its end without an exception, and the number of data
  records in its file is the entry count: 1024 for the sigmoid table, 256 for the
  arccosine table. The \<open>k\<close>-th data record is the text that the loop body writes for the
  index \<open>k\<close>, so that no entry is skipped or written twice. The lines of the sigmoid file
  are its three leading comment lines, which begin with \<^verbatim>\<open>//\<close> and are not data records,
  followed by the data records; the arccosine file has data records only. Each file is
  exactly its lines, each ended by a newline.
\<close>

theorem record_count_and_order:
  "(\<exists>f. fst (main fs) output_file = Some f \<and> snd (main fs) = None
      \<and> length (data_records f) = 1024
      \<and> map (\<lambda>l. Inr (l @ newline)) (data_records f) = map lut_body [0..<1024]
      \<and> lines_of f = lut_header @ data_records f
      \<and> comment_lines f = lut_header
      \<and> f = concat (map (\<lambda>l. l @ newline) (lut_header @ data_records f)))
   \<and> (\<exists>g. fst (acos_lut_gen fs') acos_file = Some g \<and> snd (acos_lut_gen fs') = 0
      \<and> length (data_records g) = 256
      \<and> map (\<lambda>l. Inr (l @ newline)) (data_records g) = map acos_body [0..<256]
      \<and> lines_of g = data_records g
      \<and> g = concat (map (\<lambda>l. l @ newline) (data_records g)))"
proof -
  obtain f where f: "write_loop lut_body [0..<num_entries]
          ((([] @ lut_header ! 0 @ newline) @ lut_header ! 1 @ newline) @ lut_header ! 2 @ newline)
        = (f, None)"
     "lines_of f = lut_header @ data_records f"
     "comment_lines f = lut_header"
     "length (data_records f) = length [0..<num_entries]"
     "map (\<lambda>l. Inr (l @ newline)) (data_records f) = map lut_body [0..<num_entries]"
     "f = concat (map (\<lambda>l. l @ newline) (lut_header @ data_records f))"
    using lut_loop [of "[0..<num_entries]"] by blast
  have m: "main fs = (fs(output_file := Some f), None)"
    by (simp only: main_def Let_def f(1) prod.case)
  have m1: "fst (main fs) output_file = Some f" and m2: "snd (main fs) = None"
    by (simp_all only: m fst_conv snd_conv fun_upd_same)
  have n: "num_entries = 1024" by (rule num_entries_def)
  have len: "length (data_records f) = 1024"
    using f(4) by (simp add: n)
  have mp: "map (\<lambda>l. Inr (l @ newline)) (data_records f) = map lut_body [0..<1024]"
    using f(5) by (simp only: n)
  have left: "\<exists>f. fst (main fs) output_file = Some f \<and> snd (main fs) = None
      \<and> length (data_records f) = 1024
      \<and> map (\<lambda>l. Inr (l @ newline)) (data_records f) = map lut_body [0..<1024]
      \<and> lines_of f = lut_header @ data_records f
      \<and> comment_lines f = lut_header
      \<and> f = concat (map (\<lambda>l. l @ newline) (lut_header @ data_records f))"
    using m1 m2 len mp f(2) f(3) f(6) by blast
  obtain g where g: "write_loop acos_body [0..<256] [] = (g, None)"
     "lines_of g = data_records g"
     "length (data_records g) = length [0..<256::nat]"
     "map (\<lambda>l. Inr (l @ newline)) (data_records g) = map acos_body [0..<256]"
     "g = concat (map (\<lambda>l. l @ newline) (data_records g))"
    using acos_loop [of "[0..<256]"] by blast
  have a: "acos_lut_gen fs' = (fs'(acos_file := Some g), 0)"
    by (simp only: acos_lut_gen_def Let_def g(1) prod.case option.case)
  have a1: "fst (acos_lut_gen fs') acos_file = Some g" and a2: "snd (acos_lut_gen fs') = 0"
    by (simp_all only: a fst_conv snd_conv fun_upd_same)
  have leng: "length (data_records g) = 256"
    using g(3) by (simp only: length_upt diff_zero)
  have right: "\<exists>g. fst (acos_lut_gen fs') acos_file = Some g \<and> snd (acos_lut_gen fs') = 0
      \<and> length (data_records g) = 256
      \<and> map (\<lambda>l. Inr (l @ newline)) (data_records g) = map acos_body [0..<256]
      \<and> lines_of g = data_records g
      \<and> g = concat (map (\<lambda>l. l @ newline) (data_records g))"
    using a1 a2 leng g(4) g(2) g(5) by blast
  show ?thesis using left right by (rule conjI)
qed

end
